theory Spec2Isabelle
  imports
    Main
    "HOL-Library.AList"
    "HOL-Library.Char_ord"
    "HOL-Library.List_Lexorder"
    "HOL-Library.Product_Lexorder"
    "HOL-Library.Multiset"
begin

section \<open>Strings\<close>

text \<open>
  A Python \<open>str\<close> is modelled as a \<^typ>\<open>string\<close>: a list of characters, each a code
  point below 256 (the Latin-1 range, which holds ASCII). Strings are compared character by
  character (\<open>HOL-Library.List_Lexorder\<close> over \<open>HOL-Library.Char_ord\<close>), as Python compares
  them by code point. The methods of \<open>str\<close> whose results stay in this range are written out
  below as Python defines them on it.
\<close>

definition lower_char :: "char \<Rightarrow> char" where
  \<comment> \<open>the capitals below 256 are \<open>A\<close> to \<open>Z\<close> and \<open>0xC0\<close> to \<open>0xDE\<close> without the
      multiplication sign \<open>0xD7\<close>; the small letter of each is 32 further\<close>
  "lower_char c =
     (let n = (of_char c :: nat) in
      if (65 \<le> n \<and> n \<le> 90) \<or> (192 \<le> n \<and> n \<le> 222 \<and> n \<noteq> 215)
      then char_of (n + 32) else c)"

definition lower :: "string \<Rightarrow> string" where
  \<comment> \<open>\<open>s.lower()\<close>\<close>
  "lower s = map lower_char s"

definition is_space :: "char \<Rightarrow> bool" where
  \<comment> \<open>the characters below 256 that are white space to \<open>str.split\<close> and \<open>str.strip\<close>:
      tab, LF, VT, FF, CR, the separators \<open>0x1C\<close> to \<open>0x1F\<close>, the space, the next-line
      control \<open>0x85\<close> and the no-break space \<open>0xA0\<close>\<close>
  "is_space c =
     (let n = (of_char c :: nat)
      in (9 \<le> n \<and> n \<le> 13) \<or> (28 \<le> n \<and> n \<le> 32) \<or> n = 133 \<or> n = 160)"

definition strip :: "string \<Rightarrow> string" where
  \<comment> \<open>\<open>s.strip()\<close>\<close>
  "strip s = rev (dropWhile is_space (rev (dropWhile is_space s)))"

fun split_from :: "string \<Rightarrow> string \<Rightarrow> string list" where
  \<comment> \<open>the words of a string; the second argument is the word being read, reversed\<close>
  "split_from [] w = (if w = [] then [] else [rev w])"
| "split_from (c # cs) w =
     (if is_space c then (if w = [] then split_from cs [] else rev w # split_from cs [])
      else split_from cs (c # w))"

definition split :: "string \<Rightarrow> string list" where
  \<comment> \<open>\<open>s.split()\<close>: the maximal runs of characters that are not white space\<close>
  "split s = split_from s []"

fun join :: "string \<Rightarrow> string list \<Rightarrow> string" where
  \<comment> \<open>\<open>sep.join(words)\<close>\<close>
  "join sep [] = []"
| "join sep [w] = w"
| "join sep (w # v # ws) = w @ sep @ join sep (v # ws)"

fun startswith :: "string \<Rightarrow> string \<Rightarrow> bool" where
  \<comment> \<open>\<open>startswith s k\<close> is \<open>s.startswith(k)\<close>\<close>
  "startswith s [] = True"
| "startswith [] (k # ks) = False"
| "startswith (c # cs) (k # ks) = (c = k \<and> startswith cs ks)"

fun contains :: "string \<Rightarrow> string \<Rightarrow> bool" where
  \<comment> \<open>\<open>contains k s\<close> is the substring test \<open>k in s\<close>\<close>
  "contains k [] = (k = [])"
| "contains k (c # cs) = (startswith (c # cs) k \<or> contains k cs)"

fun digit_char :: "nat \<Rightarrow> char" where
  "digit_char n = char_of (48 + n)"

fun str_nat :: "nat \<Rightarrow> string" where
  \<comment> \<open>\<open>str(n)\<close> for a non-negative integer: its decimal digits\<close>
  "str_nat n = (if n < 10 then [digit_char n] else str_nat (n div 10) @ [digit_char (n mod 10)])"

declare str_nat.simps [simp del]

section \<open>Data\<close>

text \<open>
  A link is the dict \<open>{"title": ..., "url": ...}\<close> that \<open>fetch_links\<close> and
  \<open>build_change_report\<close> build; \<open>company\<close> is the dataclass \<open>Company\<close>.
\<close>

record link =
  title :: string
  url :: string

record company =
  name :: string
  ticker :: string
  ir_url :: string
  include_keywords :: "string list"

text \<open>
  What \<open>find_all("a", href=True)\<close> yields for one anchor, as far as \<open>fetch_links\<close> reads
  it: \<open>a_text\<close> is \<open>anchor.get_text(" ", strip=True)\<close>, \<open>a_href\<close> is \<open>anchor["href"]\<close>.
\<close>

record anchor =
  a_text :: string
  a_href :: string

text \<open>
  What the program takes from Python and its libraries without this repository defining it
  is a parameter: \<open>urljoin\<close> of \<open>urllib.parse\<close>; the anchors BeautifulSoup finds in a page
  (\<open>BeautifulSoup(text, "html.parser").find_all("a", href=True)\<close>); the hexadecimal SHA-256
  digest of the UTF-8 bytes of a string; \<open>str.upper\<close>, whose result can leave the range below
  256 (the capital of \<open>0xFF\<close> is U+0178); and the order in which a set of pairs is iterated.
  That order depends on the hashes of the pairs, which change from one process to the next:
  \<open>hash_order\<close> ranks the pairs, and a set is iterated by rank. Any order of the two
  differences that one call of \<open>build_change_report\<close> sorts is that of some ranking.
\<close>

record pylib =
  urljoin :: "string \<Rightarrow> string \<Rightarrow> string"
  find_all_a :: "string \<Rightarrow> anchor list"
  sha256_hexdigest :: "string \<Rightarrow> string"
  str_upper :: "string \<Rightarrow> string"
  hash_order :: "string \<times> string \<Rightarrow> nat"

definition MAX_LINKS_PER_COMPANY :: nat where
  "MAX_LINKS_PER_COMPANY = 50"

section \<open>fetch\_links: the link extractor\<close>

definition anchor_link :: "pylib \<Rightarrow> company \<Rightarrow> anchor \<Rightarrow> link option" where
  \<comment> \<open>the body of the loop over the anchors (lines 101 to 114): \<open>None\<close> is \<open>continue\<close>,
      \<open>Some l\<close> is \<open>links.append(l)\<close>\<close>
  "anchor_link L c a =
     (let text = join '' '' (split (a_text a));
          href = strip (a_href a)
      in if href = [] then None
         else
           let absolute = urljoin L (ir_url c) href;
               lower_text = lower text;
               lower_url = lower absolute
           in if include_keywords c \<noteq> [] \<and>
                 \<not> list_ex (\<lambda>k. contains k lower_text \<or> contains k lower_url)
                     (include_keywords c)
              then None
              else Some \<lparr>title = (if text = [] then absolute else text), url = absolute\<rparr>)"

fun collect_links :: "pylib \<Rightarrow> company \<Rightarrow> anchor list \<Rightarrow> link list \<Rightarrow> link list" where
  \<comment> \<open>the loop of lines 100 to 114, from the list \<open>links\<close> built so far\<close>
  "collect_links L c [] links = links"
| "collect_links L c (a # as) links =
     (case anchor_link L c a of
        None \<Rightarrow> collect_links L c as links
      | Some l \<Rightarrow> collect_links L c as (links @ [l]))"

definition sort_key_of :: "link \<Rightarrow> string \<times> string" where
  \<comment> \<open>\<open>lambda x: (x["title"].lower(), x["url"].lower())\<close>\<close>
  "sort_key_of x = (lower (title x), lower (url x))"

definition dedupe :: "link list \<Rightarrow> ((string \<times> string) \<times> link) list" where
  \<comment> \<open>line 116: the dict comprehension. A dict keeps its keys in the order of their first
      insertion and the value of the last one, which is \<open>AList.update\<close>.\<close>
  "dedupe links = foldl (\<lambda>d item. AList.update (title item, url item) item d) [] links"

definition normalize_links :: "link list \<Rightarrow> link list" where
  \<comment> \<open>lines 117 and 118: the values of the dict, sorted by the key (\<open>list.sort\<close> is stable,
      as \<open>sort_key\<close> is)\<close>
  "normalize_links links = sort_key sort_key_of (map snd (dedupe links))"

definition extract_links :: "pylib \<Rightarrow> company \<Rightarrow> string \<Rightarrow> link list" where
  \<comment> \<open>lines 97 to 123, on the text of the response\<close>
  "extract_links L c text =
     take MAX_LINKS_PER_COMPANY (normalize_links (collect_links L c (find_all_a L text) []))"

section \<open>digest\_links: the fingerprinter\<close>

text \<open>
  \<open>json.dumps\<close> is given a list of dicts from strings to strings. A dict is an association
  list with distinct keys, in insertion order; two dicts are equal in Python when they hold
  the same items, in whatever order. \<open>link_dict\<close> is the dict the program builds for a link.
\<close>

type_synonym pydict = "(string \<times> string) list"

definition link_dict :: "link \<Rightarrow> pydict" where
  "link_dict l = [(''title'', title l), (''url'', url l)]"

definition hex_digit :: "nat \<Rightarrow> char" where
  "hex_digit n = (if n < 10 then char_of (48 + n) else char_of (87 + n))"

definition json_escape :: "char \<Rightarrow> string" where
  \<comment> \<open>\<open>json.encoder.py_encode_basestring_ascii\<close> on one character below 256: the quote and
      the backslash take a backslash, the named control characters their letter, and every
      other character outside the range from the space to the tilde becomes a backslash, the
      letter u and four hexadecimal digits\<close>
  "json_escape c =
     (let n = (of_char c :: nat) in
      if n = 34 then [CHR 0x5C, CHR 0x22]
      else if n = 92 then [CHR 0x5C, CHR 0x5C]
      else if n = 8 then [CHR 0x5C, CHR ''b'']
      else if n = 12 then [CHR 0x5C, CHR ''f'']
      else if n = 10 then [CHR 0x5C, CHR ''n'']
      else if n = 13 then [CHR 0x5C, CHR ''r'']
      else if n = 9 then [CHR 0x5C, CHR ''t'']
      else if n < 32 \<or> 126 < n
        then [CHR 0x5C, CHR ''u'', CHR ''0'', CHR ''0'', hex_digit (n div 16), hex_digit (n mod 16)]
      else [c])"

definition json_string :: "string \<Rightarrow> string" where
  "json_string s = [CHR 0x22] @ concat (map json_escape s) @ [CHR 0x22]"

definition json_dict :: "pydict \<Rightarrow> string" where
  \<comment> \<open>a dict under \<open>sort_keys=True, separators=(",", ":")\<close>: its items in the order of
      their keys\<close>
  "json_dict d =
     ''{'' @ join '','' (map (\<lambda>(k, v). json_string k @ '':'' @ json_string v) (sort_key fst d))
       @ ''}''"

definition json_dumps :: "pydict list \<Rightarrow> string" where
  "json_dumps ds = ''['' @ join '','' (map json_dict ds) @ '']''"

definition digest_links :: "pylib \<Rightarrow> pydict list \<Rightarrow> string" where
  \<comment> \<open>lines 126 to 128; the payload is ASCII, so it is its own UTF-8 encoding\<close>
  "digest_links L links = sha256_hexdigest L (json_dumps links)"

section \<open>build\_change\_report: the change detector\<close>

text \<open>
  A Python set of pairs is a list of its elements without repetition; the order of that list
  means nothing. \<open>sorted\<close> iterates over the set in the order of \<open>hash_order\<close> and sorts
  stably, so the order of iteration shows in its result only between two pairs that have
  the same sort key.
\<close>

definition pair_set :: "link list \<Rightarrow> (string \<times> string) list" where
  \<comment> \<open>\<open>{(item["title"], item["url"]) for item in links}\<close>\<close>
  "pair_set links = remdups (map (\<lambda>item. (title item, url item)) links)"

definition iterate :: "pylib \<Rightarrow> (string \<times> string) list \<Rightarrow> (string \<times> string) list" where
  \<comment> \<open>the elements of a set in the order in which Python iterates over it\<close>
  "iterate L s = sort_key (hash_order L) s"

definition set_minus ::
  "(string \<times> string) list \<Rightarrow> (string \<times> string) list \<Rightarrow> (string \<times> string) list" where
  \<comment> \<open>the set difference \<open>a - b\<close>\<close>
  "set_minus a b = filter (\<lambda>x. x \<notin> set b) a"

definition sorted_pairs :: "pylib \<Rightarrow> (string \<times> string) list \<Rightarrow> (string \<times> string) list" where
  \<comment> \<open>\<open>sorted(s, key=lambda x: (x[0].lower(), x[1].lower()))\<close> of a set \<open>s\<close>\<close>
  "sorted_pairs L s = sort_key (\<lambda>x. (lower (fst x), lower (snd x))) (iterate L s)"

definition build_change_report ::
  "pylib \<Rightarrow> link list \<Rightarrow> link list \<Rightarrow> link list \<times> link list" where
  "build_change_report L previous current =
     (let previous_set = pair_set previous;
          current_set = pair_set current;
          added = map (\<lambda>(t, u). \<lparr>title = t, url = u\<rparr>)
                    (sorted_pairs L (set_minus current_set previous_set));
          removed = map (\<lambda>(t, u). \<lparr>title = t, url = u\<rparr>)
                      (sorted_pairs L (set_minus previous_set current_set))
      in (added, removed))"

section \<open>Errors, the environment and the report\<close>

datatype error =
    FileNotFoundError
  | YAMLError
  | KeyError string
  | ValueError
  | JSONDecodeError
  | RequestException
  | HTTPError nat
  | RuntimeError string
  | SMTPException


record change =
  c_name :: string
  c_ticker :: string
  c_ir_url :: string
  added :: "link list"
  removed :: "link list"




definition email_subject :: "change list \<Rightarrow> string" where
  \<comment> \<open>the f-string of line 169\<close>
  "email_subject changes =
     ''Portfolio IR updates ('' @ str_nat (length changes) @ '' company''
       @ (if length changes \<noteq> 1 then ''ies'' else []) @ '')''"


section \<open>Configuration, state and the network\<close>

text \<open>
  One entry of the list \<open>companies\<close> of the YAML document; a key can be missing. The values
  are taken after \<open>str(...)\<close>.
\<close>

record entry =
  e_name :: "string option"
  e_ticker :: "string option"
  e_ir_url :: "string option"
  e_include_keywords :: "string list option"

datatype config_source =
    Config_Absent
  | Config_Unparsable
  | Config_Entries "entry list"

text \<open>
  One snapshot of the state file. \<open>main\<close> reads the digest and the links of a prior
  snapshot with \<open>get\<close>, so they can be missing there; \<open>main\<close> always writes both.
\<close>

record snapshot =
  snap_name :: string
  snap_ir_url :: string
  snap_digest :: "string option"
  snap_links :: "link list option"
  snap_checked_at :: string

record state_doc =
  doc_updated_at :: string
  doc_companies :: "(string \<times> snapshot) list"

datatype state_source =
    State_Absent
  | State_Unparsable
  | State_Stored state_doc

text \<open>
  What \<open>requests.get\<close> does on one request: it raises, or it returns a response with a
  status code and a text. \<open>raise_for_status\<close> is the method of \<open>requests.Response\<close>: it
  raises \<open>HTTPError\<close> for a status from 400 to 599.
\<close>

datatype http_result =
    Transport_Error
  | Response nat string

definition raise_for_status :: "nat \<Rightarrow> error + unit" where
  "raise_for_status status =
     (if 400 \<le> status \<and> status < 600 then Inl (HTTPError status) else Inr ())"


text \<open>
  The world a run sees: the library, the two files, what the network answers to the
  \<open>i\<close>-th request of the run for a URL, the \<open>i\<close>-th reading of the clock, the environment
  variables, and whether the mail server accepts the login and the message.
\<close>

record world =
  lib :: pylib
  config_file :: config_source
  state_file :: state_source
  network :: "nat \<Rightarrow> string \<Rightarrow> http_result"
  clock :: "nat \<Rightarrow> string"
  environ :: "string \<rightharpoonup> string"
  smtp_accepts :: bool




definition fetch_links ::
  "pylib \<Rightarrow> (string \<Rightarrow> http_result) \<Rightarrow> company \<Rightarrow> bool \<Rightarrow> error + (link list \<times> string list)" where
  \<comment> \<open>\<open>get\<close> answers this request; the result is the list returned and the lines printed\<close>
  "fetch_links L get c verbose =
     (case get (ir_url c) of
        Transport_Error \<Rightarrow> Inl RequestException
      | Response status text \<Rightarrow>
          (case raise_for_status status of
             Inl e \<Rightarrow> Inl e
           | Inr _ \<Rightarrow>
               Inr (extract_links L c text,
                    if verbose
                    then [''['' @ ticker c @ ''] collected ''
                          @ str_nat (length (normalize_links (collect_links L c (find_all_a L text) [])))
                          @ '' candidate links from '' @ ir_url c]
                    else [])))"

section \<open>main: the orchestrator\<close>

text \<open>The command line, without the two paths: the world holds the files at them.\<close>

record args =
  notify_on_first_run :: bool
  dry_run :: bool
  verbose :: bool

text \<open>
  The variables of the loop of \<open>main\<close>, with the URLs requested and the lines printed so far.
\<close>

record run =
  next_companies :: "(string \<times> snapshot) list"
  changes :: "change list"
  requested :: "string list"
  printed :: "string list"

definition change_record :: "pylib \<Rightarrow> company \<Rightarrow> link list \<Rightarrow> link list \<Rightarrow> change" where
  \<comment> \<open>lines 223 to 231\<close>
  "change_record L c previous_links links =
     (case build_change_report L previous_links links of
        (added', removed') \<Rightarrow>
          \<lparr>c_name = name c, c_ticker = ticker c, c_ir_url = ir_url c,
           added = added', removed = removed'\<rparr>)"

definition process_company ::
  "world \<Rightarrow> args \<Rightarrow> (string \<times> snapshot) list \<Rightarrow> company \<Rightarrow> run \<Rightarrow> error option \<times> run" where
  \<comment> \<open>the body of the loop of \<open>main\<close> (lines 204 to 232); \<open>Some e\<close> is the exception raised\<close>
  "process_company w a prior c r =
     (let n = length (requested r);
          r1 = r\<lparr>requested := requested r @ [ir_url c]\<rparr>
      in case fetch_links (lib w) (network w n) c (verbose a) of
           Inl e \<Rightarrow> (Some e, r1)
         | Inr (links, lines) \<Rightarrow>
             let digest = digest_links (lib w) (map link_dict links);
                 previous = map_of prior (ticker c);
                 previous_digest = (case previous of None \<Rightarrow> None | Some p \<Rightarrow> snap_digest p);
                 previous_links =
                   (case previous of
                      None \<Rightarrow> []
                    | Some p \<Rightarrow> (case snap_links p of None \<Rightarrow> [] | Some ls \<Rightarrow> ls));
                 r2 = r1\<lparr>printed := printed r1 @ lines,
                         next_companies :=
                           AList.update (ticker c)
                             \<lparr>snap_name = name c, snap_ir_url = ir_url c,
                              snap_digest = Some digest, snap_links = Some links,
                              snap_checked_at = clock w (Suc n)\<rparr>
                             (next_companies r1)\<rparr>;
                 is_first_run = (previous = None);
                 changed = (previous_digest \<noteq> None \<and> previous_digest \<noteq> Some digest)
             in if changed \<or> (is_first_run \<and> notify_on_first_run a)
                then (None, r2\<lparr>changes := changes r2 @ [change_record (lib w) c previous_links links]\<rparr>)
                else (None, r2))"

fun company_loop ::
  "world \<Rightarrow> args \<Rightarrow> (string \<times> snapshot) list \<Rightarrow> company list \<Rightarrow> run \<Rightarrow> error option \<times> run" where
  \<comment> \<open>the loop of line 203\<close>
  "company_loop w a prior [] r = (None, r)"
| "company_loop w a prior (c # cs) r =
     (case process_company w a prior c r of
        (Some e, r') \<Rightarrow> (Some e, r')
      | (None, r') \<Rightarrow> company_loop w a prior cs r')"






section \<open>An invariant of the dict of line 116\<close>

definition keyed :: "((string \<times> string) \<times> link) list \<Rightarrow> bool" where
  \<comment> \<open>the keys are distinct and every value is stored under its own (title, url) pair\<close>
  "keyed d =
     (distinct (map fst d) \<and> list_all (\<lambda>p. fst p = (title (snd p), url (snd p))) d)"

section \<open>Example inputs\<close>

text \<open>
  Stand-ins for the library, used only to run the definitions on concrete inputs: joining a
  base and a reference by concatenation, a page whose anchors are its words, the identity
  in place of SHA-256, capitals for the letters \<open>a\<close> to \<open>z\<close> only, and sets iterated by the
  length of the title.
\<close>

definition ascii_upper :: "string \<Rightarrow> string" where
  "ascii_upper s =
     map (\<lambda>c. if CHR ''a'' \<le> c \<and> c \<le> CHR ''z'' then char_of (of_char c - (32::nat)) else c) s"

definition example_lib :: pylib where
  "example_lib =
     \<lparr>urljoin = (\<lambda>base href. base @ href),
      find_all_a = (\<lambda>text. map (\<lambda>word. \<lparr>a_text = word, a_href = ''/'' @ word\<rparr>) (split text)),
      sha256_hexdigest = (\<lambda>payload. payload),
      str_upper = ascii_upper,
      hash_order = (\<lambda>p. length (fst p))\<rparr>"

definition example_company :: company where
  "example_company =
     \<lparr>name = ''Acme'', ticker = ''ACME'', ir_url = ''h:'', include_keywords = []\<rparr>"

definition mixed_word :: "nat \<Rightarrow> string" where
  \<comment> \<open>a small letter before the numbers below 60, a capital before the others\<close>
  "mixed_word n = (if n < 60 then ''a'' else ''B'') @ str_nat n"

definition mixed_page :: string where
  \<comment> \<open>52 anchors: \<open>B61\<close>, \<open>B60\<close>, then \<open>a59\<close> down to \<open>a10\<close>\<close>
  "mixed_page = join '' '' (map mixed_word (rev [10..<62]))"

definition mixed_link :: "nat \<Rightarrow> link" where
  "mixed_link n = \<lparr>title = mixed_word n, url = ''h:/'' @ mixed_word n\<rparr>"

definition example_link :: "nat \<Rightarrow> link" where
  "example_link n = \<lparr>title = str_nat n, url = ''h:/'' @ str_nat n\<rparr>"

definition dividend_company :: company where
  "dividend_company =
     \<lparr>name = ''Acme'', ticker = ''ACME'', ir_url = ''https://acme.example'',
      include_keywords = [''dividend'']\<rparr>"

definition dividend_anchor :: anchor where
  "dividend_anchor = \<lparr>a_text = ''Q3  Dividend Announcement'', a_href = '' /news/q3 ''\<rparr>"

definition investor_day_anchor :: anchor where
  "investor_day_anchor = \<lparr>a_text = ''Investor Day'', a_href = ''/events/day''\<rparr>"

definition beta_company :: company where
  "beta_company = \<lparr>name = ''Beta'', ticker = ''BETA'', ir_url = ''b:'', include_keywords = []\<rparr>"

definition gamma_company :: company where
  "gamma_company = \<lparr>name = ''Gamma'', ticker = ''GAMMA'', ir_url = ''g:'', include_keywords = []\<rparr>"

definition example_config :: config_source where
  "example_config =
     Config_Entries
       [\<lparr>e_name = Some ''Acme'', e_ticker = Some ''acme'', e_ir_url = Some ''h:'',
         e_include_keywords = None\<rparr>,
        \<lparr>e_name = Some ''Beta'', e_ticker = Some ''Beta'', e_ir_url = Some ''b:'',
         e_include_keywords = Some []\<rparr>,
        \<lparr>e_name = Some ''Gamma'', e_ticker = Some ''GAMMA'', e_ir_url = Some ''g:'',
         e_include_keywords = None\<rparr>]"

definition example_prior :: "(string \<times> snapshot) list" where
  \<comment> \<open>Acme was seen with one link and another digest, Beta as it is now, Gamma never\<close>
  "example_prior =
     [(''ACME'',
       \<lparr>snap_name = ''Acme'', snap_ir_url = ''h:'', snap_digest = Some ''old'',
        snap_links = Some [example_link 10], snap_checked_at = ''0''\<rparr>),
      (''BETA'',
       \<lparr>snap_name = ''Beta'', snap_ir_url = ''b:'',
        snap_digest = Some (digest_links example_lib [link_dict \<lparr>title = ''20'', url = ''b:/20''\<rparr>]),
        snap_links = Some [\<lparr>title = ''20'', url = ''b:/20''\<rparr>], snap_checked_at = ''0''\<rparr>)]"

definition example_world :: world where
  "example_world =
     \<lparr>lib = example_lib,
      config_file = example_config,
      state_file = State_Stored \<lparr>doc_updated_at = ''0'', doc_companies = example_prior\<rparr>,
      network = (\<lambda>i u. if u = ''h:'' then Response 200 ''10 11''
                        else if u = ''b:'' then Response 200 ''20''
                        else Response 200 ''30''),
      clock = str_nat,
      environ = Map.empty,
      smtp_accepts = True\<rparr>"



definition example_args :: args where
  "example_args = \<lparr>notify_on_first_run = False, dry_run = True, verbose = False\<rparr>"

definition empty_run :: run where
  "empty_run = \<lparr>next_companies = [], changes = [], requested = [], printed = []\<rparr>"

section \<open>Properties of the link extractor\<close>

lemma collect_links_map_filter:
  "collect_links L c as links = links @ List.map_filter (anchor_link L c) as"
  by (induction as arbitrary: links) (auto simp: map_filter_simps split: option.splits)

lemma link_eq_iff: "(l = l') = (title l = title l' \<and> url l = url l')" for l l' :: link
  by (cases l, cases l') simp

lemma update_keyed_set:
  "set (AList.update k v d) \<subseteq> insert (k, v) (set d)"
  by (induction d) auto

lemma update_keyed_values:
  "keyed d \<Longrightarrow> snd ` set (AList.update (title l, url l) l d) = insert l (snd ` set d)"
proof (induction d)
  case Nil
  then show ?case by simp
next
  case (Cons p d)
  then have kd: "keyed d" and p: "fst p = (title (snd p), url (snd p))"
    by (auto simp: keyed_def)
  show ?case
  proof (cases "fst p = (title l, url l)")
    case True
    with p have "snd p = l" by (simp add: link_eq_iff)
    with True show ?thesis by (cases p) auto
  next
    case False
    with Cons.IH [OF kd] show ?thesis by auto
  qed
qed

lemma update_keyed:
  assumes "keyed d"
  shows "keyed (AList.update (title l, url l) l d)"
proof -
  have "distinct (map fst (AList.update (title l, url l) l d))"
    using assms by (simp add: keyed_def distinct_update)
  moreover have "list_all (\<lambda>p. fst p = (title (snd p), url (snd p))) (AList.update (title l, url l) l d)"
    using assms update_keyed_set [of "(title l, url l)" l d]
    by (auto simp: keyed_def list_all_iff)
  ultimately show ?thesis by (simp add: keyed_def)
qed

lemma foldl_update_keyed:
  "keyed d \<Longrightarrow>
   keyed (foldl (\<lambda>d item. AList.update (title item, url item) item d) d links) \<and>
   snd ` set (foldl (\<lambda>d item. AList.update (title item, url item) item d) d links)
     = snd ` set d \<union> set links"
proof (induction links arbitrary: d)
  case Nil
  then show ?case by simp
next
  case (Cons l links)
  have k: "keyed (AList.update (title l, url l) l d)"
    by (rule update_keyed [OF Cons.prems])
  have v: "snd ` set (AList.update (title l, url l) l d) = insert l (snd ` set d)"
    by (rule update_keyed_values [OF Cons.prems])
  from Cons.IH [OF k] show ?case
    unfolding v by simp
qed

lemma keyed_distinct_values: "keyed d \<Longrightarrow> distinct (map snd d)"
proof -
  assume k: "keyed d"
  have "map fst d = map (\<lambda>l. (title l, url l)) (map snd d)"
  proof -
    have "\<forall>p \<in> set d. fst p = (title (snd p), url (snd p))"
      using k by (simp add: keyed_def list_all_iff)
    then have "map fst d = map (\<lambda>p. (title (snd p), url (snd p))) d"
      by (intro map_cong refl) simp
    then show ?thesis by (simp add: comp_def)
  qed
  moreover have "distinct (map fst d)" using k by (simp add: keyed_def)
  ultimately have "distinct (map (\<lambda>l. (title l, url l)) (map snd d))" by (simp only:)
  then show ?thesis by (rule distinct_map [THEN iffD1, THEN conjunct1])
qed

lemma dedupe_keyed: "keyed (dedupe links)"
  using foldl_update_keyed [of "[]" links] by (simp add: dedupe_def keyed_def)

lemma set_dedupe: "set (map snd (dedupe links)) = set links"
  using foldl_update_keyed [of "[]" links] by (simp add: dedupe_def keyed_def)

lemma distinct_dedupe: "distinct (map snd (dedupe links))"
  by (rule keyed_distinct_values [OF dedupe_keyed])

lemma set_normalize_links: "set (normalize_links links) = set links"
  by (simp add: normalize_links_def set_dedupe del: set_map)

lemma distinct_normalize_links: "distinct (normalize_links links)"
  by (simp add: normalize_links_def distinct_dedupe)

lemma sorted_normalize_links: "sorted (map sort_key_of (normalize_links links))"
  by (simp add: normalize_links_def sorted_sort_key)

lemma length_normalize_links: "length (normalize_links links) = card (set links)"
  using distinct_card [OF distinct_normalize_links, of links] by (simp add: set_normalize_links)

lemma sorted_take_drop:
  "sorted (map f xs) \<Longrightarrow> x \<in> set (take n xs) \<Longrightarrow> y \<in> set (drop n xs) \<Longrightarrow> f x \<le> f y"
proof -
  assume s: "sorted (map f xs)" and x: "x \<in> set (take n xs)" and y: "y \<in> set (drop n xs)"
  have "map f xs = map f (take n xs) @ map f (drop n xs)"
    by (simp only: map_append [symmetric] append_take_drop_id)
  with s have "\<forall>a\<in>set (map f (take n xs)). \<forall>b\<in>set (map f (drop n xs)). a \<le> b"
    by (simp add: sorted_append)
  with x y show ?thesis by simp
qed

lemma distinct_take_drop_diff:
  assumes "distinct xs"
  shows "set xs - set (take n xs) = set (drop n xs)"
proof -
  have d: "distinct (take n xs @ drop n xs)" using assms by simp
  have i: "set (take n xs) \<inter> set (drop n xs) = {}"
    using d unfolding distinct_append by (rule conjunct2 [THEN conjunct2])
  have u: "set (take n xs) \<union> set (drop n xs) = set xs"
    using set_append [of "take n xs" "drop n xs"] by simp
  from i u show ?thesis by blast
qed

lemma sorted_map_take: "sorted (map f xs) \<Longrightarrow> sorted (map f (take n xs))"
  using sorted_wrt_take [of "(\<le>)" "map f xs" n] by (simp add: take_map)

lemma take_normalize_links:
  fixes links :: "link list" and n :: nat
  defines "out \<equiv> take n (normalize_links links)"
  shows "length out \<le> n"
    and "length out = min n (card (set links))"
    and "distinct out"
    and "set out \<subseteq> set links"
    and "sorted (map sort_key_of out)"
    and "\<forall>x \<in> set out. \<forall>y \<in> set links - set out. sort_key_of x \<le> sort_key_of y"
proof -
  show "length out \<le> n" by (simp add: out_def)
  show "length out = min n (card (set links))"
    by (simp add: out_def length_normalize_links min.commute)
  show "distinct out" by (simp add: out_def distinct_normalize_links)
  show "set out \<subseteq> set links"
    using set_take_subset [of n "normalize_links links"]
    by (simp add: out_def set_normalize_links)
  show "sorted (map sort_key_of out)"
    unfolding out_def by (rule sorted_map_take [OF sorted_normalize_links])
  have rest: "set links - set out = set (drop n (normalize_links links))"
    using distinct_take_drop_diff [OF distinct_normalize_links, of links n]
    by (simp add: out_def set_normalize_links)
  show "\<forall>x \<in> set out. \<forall>y \<in> set links - set out. sort_key_of x \<le> sort_key_of y"
    unfolding rest unfolding out_def
    using sorted_take_drop [OF sorted_normalize_links] by blast
qed

lemma sort_key_of_eq: "sort_key_of = (\<lambda>x. (lower (title x), lower (url x)))"
  by (rule ext) (simp add: sort_key_of_def)

text \<open>
  Claim C3. For every page, the list the extractor returns has at most 50 links. It holds
  \<open>min 50 n\<close> of the \<open>n\<close> distinct links that qualify, in ascending order of the pair
  (lowercase title, lowercase url), and for every link it holds that pair is at most the pair
  of every qualifying link it leaves out: the cap is applied after the sort, and keeps the
  smallest.
\<close>

theorem extract_links_cap:
  "(let qualifying = set (collect_links L c (find_all_a L text) []);
        out = extract_links L c text
    in length out \<le> 50 \<and>
       length out = min 50 (card qualifying) \<and>
       distinct out \<and>
       set out \<subseteq> qualifying \<and>
       sorted (map (\<lambda>x. (lower (title x), lower (url x))) out) \<and>
       (\<forall>x \<in> set out. \<forall>y \<in> qualifying - set out.
          (lower (title x), lower (url x)) \<le> (lower (title y), lower (url y))))"
  unfolding Let_def extract_links_def MAX_LINKS_PER_COMPANY_def
  by (intro conjI take_normalize_links [unfolded sort_key_of_eq])

lemma mixed_out: "extract_links example_lib example_company mixed_page = map mixed_link [10..<60]"
  by code_simp

lemma mixed_qual: "collect_links example_lib example_company (find_all_a example_lib mixed_page) []
   = map mixed_link (rev [10..<62])"
  by code_simp

text \<open>
  On the page of 52 anchors the titles \<open>B60\<close> and \<open>B61\<close> come before \<open>a59\<close> as they are
  written, and after it in lowercase: the extractor keeps \<open>a59\<close> and leaves \<open>B60\<close> out.
\<close>

theorem extract_links_cap_witness:
  "length (extract_links example_lib example_company mixed_page) = 50 \<and>
   card (set (collect_links example_lib example_company (find_all_a example_lib mixed_page) [])) = 52 \<and>
   mixed_link 59 \<in> set (extract_links example_lib example_company mixed_page) \<and>
   mixed_link 60 \<notin> set (extract_links example_lib example_company mixed_page) \<and>
   (title (mixed_link 60), url (mixed_link 60)) < (title (mixed_link 59), url (mixed_link 59)) \<and>
   (lower (title (mixed_link 59)), lower (url (mixed_link 59)))
     \<le> (lower (title (mixed_link 60)), lower (url (mixed_link 60)))"
proof -
  let ?out = "extract_links example_lib example_company mixed_page"
  let ?qual = "set (collect_links example_lib example_company (find_all_a example_lib mixed_page) [])"
  have kept: "mixed_link 59 \<in> set ?out"
    unfolding mixed_out by code_simp
  have dropped: "mixed_link 60 \<in> ?qual - set ?out"
    unfolding mixed_out mixed_qual by code_simp
  have len: "length ?out = 50"
    unfolding mixed_out by simp
  have written: "(title (mixed_link 60), url (mixed_link 60)) < (title (mixed_link 59), url (mixed_link 59))"
    by code_simp
  from extract_links_cap [of example_lib example_company mixed_page]
  have s: "\<forall>x \<in> set ?out. \<forall>y \<in> ?qual - set ?out.
             (lower (title x), lower (url x)) \<le> (lower (title y), lower (url y))"
    unfolding Let_def by blast
  have "card ?qual = 52"
    unfolding mixed_qual by code_simp
  moreover from s kept dropped
  have "(lower (title (mixed_link 59)), lower (url (mixed_link 59)))
          \<le> (lower (title (mixed_link 60)), lower (url (mixed_link 60)))"
    by blast
  ultimately show ?thesis using kept dropped len written by blast
qed

lemma inj_pair_of_link: "inj (\<lambda>l :: link. (title l, url l))"
  by (rule injI) (simp add: link_eq_iff)

lemma distinct_count_one: "distinct xs \<Longrightarrow> x \<in> set xs \<Longrightarrow> count_list xs x = 1"
  by (induction xs) (auto simp: count_list_0_iff)

text \<open>
  Claim C5. For every page, no two links of the list the extractor returns have the same
  (title, url) pair, every pair it returns is the pair of a qualifying anchor, and it
  returns \<open>min 50 n\<close> pairs when \<open>n\<close> distinct pairs qualify: no pair is lost by the
  collapsing. When at most 50 distinct pairs qualify, every one of them is in the list
  exactly once.
\<close>

theorem extract_links_no_duplicates:
  "(let qualifying = (\<lambda>l. (title l, url l)) ` set (collect_links L c (find_all_a L text) []);
        out = map (\<lambda>l. (title l, url l)) (extract_links L c text)
    in distinct out \<and>
       set out \<subseteq> qualifying \<and>
       length out = min 50 (card qualifying) \<and>
       (card qualifying \<le> 50 \<longrightarrow> (\<forall>p \<in> qualifying. count_list out p = 1)))"
proof -
  define links where "links = collect_links L c (find_all_a L text) []"
  define qualifying where "qualifying = (\<lambda>l. (title l, url l)) ` set links"
  define out where "out = map (\<lambda>l. (title l, url l)) (take 50 (normalize_links links))"
  have crd: "card qualifying = card (set links)"
    unfolding qualifying_def
    by (rule card_image) (rule inj_on_subset [OF inj_pair_of_link subset_UNIV])
  have d: "distinct out"
    unfolding out_def
    by (simp add: distinct_map take_normalize_links(3) inj_on_subset [OF inj_pair_of_link subset_UNIV])
  have sub: "set out \<subseteq> qualifying"
    unfolding out_def qualifying_def using take_normalize_links(4) [of 50 links] by auto
  have len: "length out = min 50 (card qualifying)"
    unfolding crd out_def using take_normalize_links(2) [of 50 links] by simp
  have all: "\<forall>p \<in> qualifying. count_list out p = 1" if "card qualifying \<le> 50"
  proof -
    have "card (set out) = card qualifying"
      using d len that by (simp add: distinct_card)
    moreover have "finite qualifying" by (simp add: qualifying_def)
    ultimately have "set out = qualifying"
      using sub by (simp add: card_subset_eq)
    with d show ?thesis by (simp add: distinct_count_one)
  qed
  show ?thesis
    unfolding Let_def extract_links_def MAX_LINKS_PER_COMPANY_def
      links_def [symmetric] qualifying_def [symmetric] out_def [symmetric]
    using d sub len all by blast
qed

text \<open>
  A page with the anchor \<open>7\<close> twice and the anchor \<open>8\<close> once: two pairs qualify, and the
  list returned holds each of them once.
\<close>

theorem extract_links_no_duplicates_witness:
  "collect_links example_lib example_company (find_all_a example_lib ''7 7 8'') []
     = [example_link 7, example_link 7, example_link 8] \<and>
   extract_links example_lib example_company ''7 7 8'' = [example_link 7, example_link 8] \<and>
   count_list (map (\<lambda>l. (title l, url l)) (extract_links example_lib example_company ''7 7 8''))
     (title (example_link 7), url (example_link 7)) = 1"
proof -
  let ?pair = "\<lambda>l :: link. (title l, url l)"
  let ?qual = "collect_links example_lib example_company (find_all_a example_lib ''7 7 8'') []"
  have q: "?qual = [example_link 7, example_link 7, example_link 8]"
    by code_simp
  have o: "extract_links example_lib example_company ''7 7 8'' = [example_link 7, example_link 8]"
    by code_simp
  have small: "card (?pair ` set ?qual) \<le> 50"
    unfolding q by (simp add: card_insert_le_m1)
  have mem: "?pair (example_link 7) \<in> ?pair ` set ?qual"
    unfolding q by simp
  from extract_links_no_duplicates [of example_lib example_company "''7 7 8''"] small mem
  have "count_list (map ?pair (extract_links example_lib example_company ''7 7 8''))
          (?pair (example_link 7)) = 1"
    unfolding Let_def by blast
  with q o show ?thesis by blast
qed

lemma startswith_iff: "startswith s k \<longleftrightarrow> (\<exists>q. s = k @ q)"
  by (induction s k rule: startswith.induct) auto

lemma contains_iff: "contains k s \<longleftrightarrow> (\<exists>p q. s = p @ k @ q)"
proof (induction s)
  case Nil
  then show ?case by simp
next
  case (Cons c cs)
  have "(\<exists>p q. c # cs = p @ k @ q) \<longleftrightarrow> (\<exists>q. c # cs = k @ q) \<or> (\<exists>p q. cs = p @ k @ q)"
  proof
    assume "\<exists>p q. c # cs = p @ k @ q"
    then obtain p q where e: "c # cs = p @ k @ q" by blast
    show "(\<exists>q. c # cs = k @ q) \<or> (\<exists>p q. cs = p @ k @ q)"
    proof (cases p)
      case Nil
      with e show ?thesis by auto
    next
      case (Cons x p')
      with e have "cs = p' @ k @ q" by simp
      then show ?thesis by blast
    qed
  next
    assume "(\<exists>q. c # cs = k @ q) \<or> (\<exists>p q. cs = p @ k @ q)"
    then show "\<exists>p q. c # cs = p @ k @ q"
    proof
      assume "\<exists>q. c # cs = k @ q"
      then obtain q where "c # cs = [] @ k @ q" by auto
      then show ?thesis by blast
    next
      assume "\<exists>p q. cs = p @ k @ q"
      then obtain p q where "c # cs = (c # p) @ k @ q" by auto
      then show ?thesis by blast
    qed
  qed
  with Cons.IH show ?case by (simp add: startswith_iff)
qed

lemma list_ex_contains:
  "list_ex (\<lambda>k. contains k s \<or> contains k t) ks \<longleftrightarrow>
   (\<exists>k \<in> set ks. (\<exists>p q. s = p @ k @ q) \<or> (\<exists>p q. t = p @ k @ q))"
  by (simp add: list_ex_iff contains_iff)

text \<open>
  Claim C4. An anchor whose reference is not empty after stripping is appended to the list
  of links exactly when the company has no keywords, or one of its keywords is a substring
  of the lowercased text of the anchor or of its lowercased absolute URL.
\<close>

theorem keyword_filter:
  assumes "strip (a_href a) \<noteq> []"
  shows "collect_links L c (a # rest) links =
     collect_links L c rest
       (let text = join '' '' (split (a_text a));
            absolute = urljoin L (ir_url c) (strip (a_href a))
        in if include_keywords c = [] \<or>
              (\<exists>k \<in> set (include_keywords c).
                  (\<exists>p q. lower text = p @ k @ q) \<or> (\<exists>p q. lower absolute = p @ k @ q))
           then links @ [\<lparr>title = (if text = [] then absolute else text), url = absolute\<rparr>]
           else links)"
  using assms by (simp add: anchor_link_def Let_def list_ex_contains)

theorem keyword_filter_witness:
  "strip (a_href dividend_anchor) \<noteq> [] \<and> strip (a_href investor_day_anchor) \<noteq> [] \<and>
   collect_links example_lib dividend_company [dividend_anchor, investor_day_anchor] [] =
     [\<lparr>title = ''Q3 Dividend Announcement'', url = ''https://acme.example/news/q3''\<rparr>]"
proof -
  let ?kept = "\<lparr>title = ''Q3 Dividend Announcement'', url = ''https://acme.example/news/q3''\<rparr>"
  have h1: "strip (a_href dividend_anchor) \<noteq> []" by code_simp
  have h2: "strip (a_href investor_day_anchor) \<noteq> []" by code_simp
  have t1: "join '' '' (split (a_text dividend_anchor)) = ''Q3 Dividend Announcement''"
    "urljoin example_lib (ir_url dividend_company) (strip (a_href dividend_anchor))
       = ''https://acme.example/news/q3''"
    by code_simp+
  have ks: "include_keywords dividend_company = [''dividend'']"
    by code_simp
  have k1: "\<exists>p q. lower ''Q3 Dividend Announcement'' = p @ ''dividend'' @ q"
    unfolding contains_iff [symmetric] by code_simp
  have k2: "\<not> (\<exists>p q. lower (join '' '' (split (a_text investor_day_anchor))) = p @ ''dividend'' @ q)"
    "\<not> (\<exists>p q. lower (urljoin example_lib (ir_url dividend_company)
                          (strip (a_href investor_day_anchor))) = p @ ''dividend'' @ q)"
    unfolding contains_iff [symmetric] by code_simp+
  have "collect_links example_lib dividend_company [dividend_anchor, investor_day_anchor] [] =
     collect_links example_lib dividend_company [investor_day_anchor] [?kept]"
    using k1 unfolding keyword_filter [OF h1] Let_def t1 ks by simp
  also have "\<dots> = collect_links example_lib dividend_company [] [?kept]"
    using k2 unfolding keyword_filter [OF h2] Let_def ks by simp
  finally show ?thesis using h1 h2 by simp
qed

section \<open>Properties of the change detector\<close>

lemma set_pair_set: "set (pair_set links) = (\<lambda>item. (title item, url item)) ` set links"
  by (simp add: pair_set_def)

lemma set_sorted_pairs: "set (sorted_pairs L s) = set s"
  by (simp add: sorted_pairs_def iterate_def)

lemma set_set_minus: "set (set_minus a b) = set a - set b"
  by (auto simp: set_minus_def)

lemma set_minus_self: "set_minus a a = []"
  by (simp add: set_minus_def)

lemma pairs_of_added:
  "(\<lambda>item. (title item, url item)) ` set (fst (build_change_report L previous current)) =
     (\<lambda>item. (title item, url item)) ` set current - (\<lambda>item. (title item, url item)) ` set previous"
proof -
  have "(\<lambda>item. (title item, url item)) ` (\<lambda>(t, u). \<lparr>title = t, url = u\<rparr>) ` S = S" for S
    by (force simp: image_iff)
  then show ?thesis
    by (simp add: build_change_report_def Let_def set_sorted_pairs set_set_minus set_pair_set)
qed

lemma pairs_of_removed:
  "(\<lambda>item. (title item, url item)) ` set (snd (build_change_report L previous current)) =
     (\<lambda>item. (title item, url item)) ` set previous - (\<lambda>item. (title item, url item)) ` set current"
proof -
  have "(\<lambda>item. (title item, url item)) ` (\<lambda>(t, u). \<lparr>title = t, url = u\<rparr>) ` S = S" for S
    by (force simp: image_iff)
  then show ?thesis
    by (simp add: build_change_report_def Let_def set_sorted_pairs set_set_minus set_pair_set)
qed

text \<open>
  Claim C6. For all link lists \<open>A\<close> and \<open>B\<close>, what the detector reports as added from
  \<open>A\<close> to \<open>B\<close> is what it reports as removed from \<open>B\<close> to \<open>A\<close>, and the other way round.
\<close>

theorem build_change_report_symmetric:
  "fst (build_change_report L A B) = snd (build_change_report L B A) \<and>
   snd (build_change_report L A B) = fst (build_change_report L B A)"
  by (simp add: build_change_report_def Let_def)

text \<open>
  Claim C7. For every link list \<open>A\<close>, the detector reports nothing added and nothing
  removed from \<open>A\<close> to \<open>A\<close>.
\<close>

theorem build_change_report_same:
  "build_change_report L A A = ([], [])"
  by (simp add: build_change_report_def Let_def set_minus_self sorted_pairs_def iterate_def)

text \<open>
  Claim C10. For all previous and current link lists, no (title, url) pair is both among
  the added and among the removed links of one report.
\<close>

theorem build_change_report_disjoint:
  "(\<lambda>item. (title item, url item)) ` set (fst (build_change_report L previous current)) \<inter>
   (\<lambda>item. (title item, url item)) ` set (snd (build_change_report L previous current)) = {}"
  unfolding pairs_of_added pairs_of_removed by blast

section \<open>Properties of the fingerprinter\<close>

lemma sort_key_fst_unique:
  assumes "distinct (map fst d)" and "distinct (map fst e)" and "set d = set e"
  shows "sort_key fst d = sort_key fst e"
proof (rule map_sorted_distinct_set_unique [where f = fst])
  have "inj_on fst (set d)" using assms(1) by (simp add: distinct_map)
  then show "inj_on fst (set (sort_key fst d) \<union> set (sort_key fst e))"
    using assms(3) by simp
  show "sorted (map fst (sort_key fst d))" by (rule sorted_sort_key)
  show "sorted (map fst (sort_key fst e))" by (rule sorted_sort_key)
  show "distinct (map fst (sort_key fst d))" using assms(1) by (simp add: distinct_map)
  show "distinct (map fst (sort_key fst e))" using assms(2) by (simp add: distinct_map)
  show "set (sort_key fst d) = set (sort_key fst e)" using assms(3) by simp
qed

lemma json_dict_unique:
  assumes "distinct (map fst d)" and "distinct (map fst e)" and "set d = set e"
  shows "json_dict d = json_dict e"
  using sort_key_fst_unique [OF assms] by (simp add: json_dict_def)

text \<open>
  Claim C8. The digest is a function of the list of links alone: two lists of the same
  length whose dicts are equal position by position (the same items, in whatever order the
  keys were inserted) have the same digest.
\<close>

theorem digest_links_deterministic:
  assumes "list_all2 (\<lambda>d e. distinct (map fst d) \<and> distinct (map fst e) \<and> set d = set e) L1 L2"
  shows "digest_links L L1 = digest_links L L2"
proof -
  have "list_all2 (\<lambda>d e. json_dict d = json_dict e) L1 L2"
    using assms
    by (rule list_all2_mono) (blast intro: json_dict_unique)
  then have "map json_dict L1 = map json_dict L2"
    by (induction rule: list_all2_induct) simp_all
  then show ?thesis by (simp add: digest_links_def json_dumps_def)
qed

theorem digest_links_deterministic_witness:
  "list_all2 (\<lambda>d e. distinct (map fst d) \<and> distinct (map fst e) \<and> set d = set e)
     [[(''title'', ''A''), (''url'', ''u'')]] [[(''url'', ''u''), (''title'', ''A'')]] \<and>
   digest_links example_lib [[(''title'', ''A''), (''url'', ''u'')]]
     = digest_links example_lib [[(''url'', ''u''), (''title'', ''A'')]]"
proof -
  have h: "list_all2 (\<lambda>d e. distinct (map fst d) \<and> distinct (map fst e) \<and> set d = set e)
     [[(''title'', ''A''), (''url'', ''u'')]] [[(''url'', ''u''), (''title'', ''A'')]]"
    by auto
  from digest_links_deterministic [OF h] h show ?thesis by blast
qed

section \<open>The subject of the report\<close>

text \<open>
  Claim C9. The subject gives the number of companies with changes. For one company the noun
  is ``company''; for two the program appends \<open>ies\<close> to the singular and writes
  ``companyies''.
\<close>

theorem email_subject_two:
  "email_subject [c1, c2] = ''Portfolio IR updates (2 companyies)''"
  by code_simp

section \<open>Properties of the orchestrator\<close>



lemma process_company_Inl:
  "fetch_links (lib w) (network w (length (requested r))) c (verbose a) = Inl e \<Longrightarrow>
   process_company w a prior c r = (Some e, r\<lparr>requested := requested r @ [ir_url c]\<rparr>)"
  by (simp add: process_company_def Let_def)

lemma process_company_Inr:
  assumes "fetch_links (lib w) (network w (length (requested r))) c (verbose a) = Inr (links, lines)"
  shows "fst (process_company w a prior c r) = None"
    and "requested (snd (process_company w a prior c r)) = requested r @ [ir_url c]"
    and "changes (snd (process_company w a prior c r)) =
           changes r @
           (if (\<exists>p d. map_of prior (ticker c) = Some p \<and> snap_digest p = Some d \<and>
                       d \<noteq> digest_links (lib w) (map link_dict links)) \<or>
               (map_of prior (ticker c) = None \<and> notify_on_first_run a)
            then [change_record (lib w) c
                    (case map_of prior (ticker c) of
                       None \<Rightarrow> []
                     | Some p \<Rightarrow> (case snap_links p of None \<Rightarrow> [] | Some ls \<Rightarrow> ls))
                    links]
            else [])"
  using assms
  by (auto simp: process_company_def Let_def split: option.splits)





lemma change_record_eq:
  "change_record L c previous_links links =
     \<lparr>c_name = name c, c_ticker = ticker c, c_ir_url = ir_url c,
      added = fst (build_change_report L previous_links links),
      removed = snd (build_change_report L previous_links links)\<rparr>"
  by (simp add: change_record_def split: prod.splits)

lemma company_loop_changes:
  assumes step: "\<And>c r links lines.
      fetch_links (lib w) (network w (length (requested r))) c (verbose a) = Inr (links, lines) \<Longrightarrow>
      changes (snd (process_company w a prior c r)) = changes r @ F c links"
  shows "\<exists>linkss.
     (case fst (company_loop w a prior cs r) of
        None \<Rightarrow> length linkss = length cs
      | Some e \<Rightarrow>
          length linkss < length cs \<and>
          fetch_links (lib w) (network w (length (requested r) + length linkss))
            (cs ! length linkss) (verbose a) = Inl e) \<and>
     (\<forall>i < length linkss. \<exists>lines.
        fetch_links (lib w) (network w (length (requested r) + i)) (cs ! i) (verbose a)
          = Inr (linkss ! i, lines)) \<and>
     changes (snd (company_loop w a prior cs r)) = changes r @ concat (map2 F cs linkss)"
proof (induction cs arbitrary: r)
  case Nil
  show ?case by (rule exI [of _ "[]"]) simp
next
  case (Cons c cs)
  show ?case
  proof (cases "fetch_links (lib w) (network w (length (requested r))) c (verbose a)")
    case (Inl e)
    have "company_loop w a prior (c # cs) r = (Some e, r\<lparr>requested := requested r @ [ir_url c]\<rparr>)"
      by (simp add: process_company_Inl [OF Inl])
    then show ?thesis
      using Inl by (intro exI [of _ "[]"]) simp
  next
    case (Inr res)
    obtain links lines where res: "res = (links, lines)" by (cases res)
    note ok = Inr [unfolded res]
    define r1 where "r1 = snd (process_company w a prior c r)"
    have p: "process_company w a prior c r = (None, r1)"
      using process_company_Inr(1) [OF ok, of prior] by (simp add: r1_def prod_eq_iff)
    have rq: "requested r1 = requested r @ [ir_url c]"
      using process_company_Inr(2) [OF ok, of prior] by (simp add: r1_def)
    have ch: "changes r1 = changes r @ F c links"
      using step [OF ok] by (simp add: r1_def)
    have loop: "company_loop w a prior (c # cs) r = company_loop w a prior cs r1"
      by (simp add: p)
    from Cons.IH [of r1] obtain linkss where
      a1: "case fst (company_loop w a prior cs r1) of
             None \<Rightarrow> length linkss = length cs
           | Some e \<Rightarrow>
               length linkss < length cs \<and>
               fetch_links (lib w) (network w (length (requested r1) + length linkss))
                 (cs ! length linkss) (verbose a) = Inl e"
      and a2: "\<forall>i < length linkss. \<exists>lines.
          fetch_links (lib w) (network w (length (requested r1) + i)) (cs ! i) (verbose a)
            = Inr (linkss ! i, lines)"
      and a3: "changes (snd (company_loop w a prior cs r1)) = changes r1 @ concat (map2 F cs linkss)"
      by blast
    have b1: "case fst (company_loop w a prior (c # cs) r) of
             None \<Rightarrow> length (links # linkss) = length (c # cs)
           | Some e \<Rightarrow>
               length (links # linkss) < length (c # cs) \<and>
               fetch_links (lib w) (network w (length (requested r) + length (links # linkss)))
                 ((c # cs) ! length (links # linkss)) (verbose a) = Inl e"
      using a1 unfolding loop by (simp add: rq split: option.splits)
    have b2: "\<forall>i < length (links # linkss). \<exists>lines.
          fetch_links (lib w) (network w (length (requested r) + i)) ((c # cs) ! i) (verbose a)
            = Inr ((links # linkss) ! i, lines)"
    proof (intro allI impI)
      fix i assume i: "i < length (links # linkss)"
      show "\<exists>lines. fetch_links (lib w) (network w (length (requested r) + i)) ((c # cs) ! i) (verbose a)
            = Inr ((links # linkss) ! i, lines)"
      proof (cases i)
        case 0
        with ok show ?thesis by auto
      next
        case (Suc j)
        with i a2 have "\<exists>lines. fetch_links (lib w) (network w (length (requested r1) + j)) (cs ! j) (verbose a)
            = Inr (linkss ! j, lines)" by simp
        with Suc show ?thesis by (simp add: rq)
      qed
    qed
    have b3: "changes (snd (company_loop w a prior (c # cs) r)) =
        changes r @ concat (map2 F (c # cs) (links # linkss))"
      unfolding loop a3 ch by simp
    from b1 b2 b3 show ?thesis by blast
  qed
qed

text \<open>
  Claim C1. Run the loop of \<open>main\<close> over the companies \<open>cs\<close>. The companies it processes
  are a prefix of \<open>cs\<close>, all of it unless a request fails; \<open>linkss\<close> lists the links
  fetched for them. The change records appended are, company by company and in order: one
  record if a prior snapshot for the ticker exists and its stored digest differs from the
  current digest, or if no prior snapshot exists and the flag to notify on the first run is
  set; none otherwise. The added and removed fields of the record are the report of the
  change detector from the prior links (none if no prior snapshot exists) to the current
  links.
\<close>

theorem change_records_appended:
  "\<exists>linkss.
     (case fst (company_loop w a prior cs r) of
        None \<Rightarrow> length linkss = length cs
      | Some e \<Rightarrow>
          length linkss < length cs \<and>
          fetch_links (lib w) (network w (length (requested r) + length linkss))
            (cs ! length linkss) (verbose a) = Inl e) \<and>
     (\<forall>i < length linkss. \<exists>lines.
        fetch_links (lib w) (network w (length (requested r) + i)) (cs ! i) (verbose a)
          = Inr (linkss ! i, lines)) \<and>
     changes (snd (company_loop w a prior cs r)) =
       changes r @
       concat (map2
         (\<lambda>c links.
            if (\<exists>p d. map_of prior (ticker c) = Some p \<and> snap_digest p = Some d \<and>
                       d \<noteq> digest_links (lib w) (map link_dict links)) \<or>
               (map_of prior (ticker c) = None \<and> notify_on_first_run a)
            then [\<lparr>c_name = name c, c_ticker = ticker c, c_ir_url = ir_url c,
                   added = fst (build_change_report (lib w)
                     (case map_of prior (ticker c) of
                        None \<Rightarrow> []
                      | Some p \<Rightarrow> (case snap_links p of None \<Rightarrow> [] | Some ls \<Rightarrow> ls)) links),
                   removed = snd (build_change_report (lib w)
                     (case map_of prior (ticker c) of
                        None \<Rightarrow> []
                      | Some p \<Rightarrow> (case snap_links p of None \<Rightarrow> [] | Some ls \<Rightarrow> ls)) links)\<rparr>]
            else [])
         cs linkss)"
  by (rule company_loop_changes) (simp add: process_company_Inr(3) change_record_eq)

theorem change_records_appended_witness:
  "fst (company_loop example_world example_args example_prior
          [example_company, beta_company, gamma_company] empty_run) = None \<and>
   changes (snd (company_loop example_world example_args example_prior
          [example_company, beta_company, gamma_company] empty_run)) =
     [\<lparr>c_name = ''Acme'', c_ticker = ''ACME'', c_ir_url = ''h:'',
       added = [example_link 11], removed = []\<rparr>]"
proof -
  let ?cs = "[example_company, beta_company, gamma_company]"
  let ?loop = "company_loop example_world example_args example_prior ?cs empty_run"
  let ?la = "[example_link 10, example_link 11]"
  let ?lb = "[\<lparr>title = ''20'', url = ''b:/20''\<rparr>]"
  let ?lc = "[\<lparr>title = ''30'', url = ''g:/30''\<rparr>]"
  have ok: "fst ?loop = None" by code_simp
  have fa: "fetch_links (lib example_world) (network example_world (length (requested empty_run) + 0))
              (?cs ! 0) (verbose example_args) = Inr (?la, [])"
    by code_simp
  have fb: "fetch_links (lib example_world) (network example_world (length (requested empty_run) + 1))
              (?cs ! 1) (verbose example_args) = Inr (?lb, [])"
    by code_simp
  have fc: "fetch_links (lib example_world) (network example_world (length (requested empty_run) + 2))
              (?cs ! 2) (verbose example_args) = Inr (?lc, [])"
    by code_simp
  have pa: "map_of example_prior ''ACME'' =
              Some \<lparr>snap_name = ''Acme'', snap_ir_url = ''h:'', snap_digest = Some ''old'',
                    snap_links = Some [example_link 10], snap_checked_at = ''0''\<rparr>"
    by code_simp
  have da: "''old'' \<noteq> digest_links (lib example_world) (map link_dict ?la)"
    by code_simp
  have ra: "build_change_report (lib example_world) [example_link 10] ?la = ([example_link 11], [])"
    by code_simp
  have pb: "map_of example_prior ''BETA'' =
              Some \<lparr>snap_name = ''Beta'', snap_ir_url = ''b:'',
                    snap_digest = Some (digest_links (lib example_world) (map link_dict ?lb)),
                    snap_links = Some ?lb, snap_checked_at = ''0''\<rparr>"
    by code_simp
  have pc: "map_of example_prior ''GAMMA'' = None"
    by code_simp
  have flag: "\<not> notify_on_first_run example_args" by code_simp
  have ids: "name example_company = ''Acme''" "ticker example_company = ''ACME''"
    "ir_url example_company = ''h:''" "changes empty_run = []"
    "ticker beta_company = ''BETA''" "ticker gamma_company = ''GAMMA''"
    by code_simp+
  from change_records_appended [where w = example_world and a = example_args
      and prior = example_prior and cs = ?cs and r = empty_run]
  obtain linkss where
    n: "case fst ?loop of
          None \<Rightarrow> length linkss = length ?cs
        | Some e \<Rightarrow>
            length linkss < length ?cs \<and>
            fetch_links (lib example_world)
              (network example_world (length (requested empty_run) + length linkss))
              (?cs ! length linkss) (verbose example_args) = Inl e"
    and f: "\<forall>i < length linkss. \<exists>lines.
        fetch_links (lib example_world) (network example_world (length (requested empty_run) + i))
          (?cs ! i) (verbose example_args) = Inr (linkss ! i, lines)"
    and c: "changes (snd ?loop) =
       changes empty_run @
       concat (map2
         (\<lambda>c links.
            if (\<exists>p d. map_of example_prior (ticker c) = Some p \<and> snap_digest p = Some d \<and>
                       d \<noteq> digest_links (lib example_world) (map link_dict links)) \<or>
               (map_of example_prior (ticker c) = None \<and> notify_on_first_run example_args)
            then [\<lparr>c_name = name c, c_ticker = ticker c, c_ir_url = ir_url c,
                   added = fst (build_change_report (lib example_world)
                     (case map_of example_prior (ticker c) of
                        None \<Rightarrow> []
                      | Some p \<Rightarrow> (case snap_links p of None \<Rightarrow> [] | Some ls \<Rightarrow> ls)) links),
                   removed = snd (build_change_report (lib example_world)
                     (case map_of example_prior (ticker c) of
                        None \<Rightarrow> []
                      | Some p \<Rightarrow> (case snap_links p of None \<Rightarrow> [] | Some ls \<Rightarrow> ls)) links)\<rparr>]
            else [])
         ?cs linkss)"
    by blast
  from n ok have len: "length linkss = 3" by simp
  from f len fa have l0: "linkss ! 0 = ?la" by (auto dest!: spec [of _ 0])
  from f len fb have l1: "linkss ! 1 = ?lb" by (auto dest!: spec [of _ 1])
  from f len fc have l2: "linkss ! 2 = ?lc" by (auto dest!: spec [of _ 2])
  from len obtain x y z where xyz: "linkss = [x, y, z]"
    by (auto simp: length_Suc_conv numeral_3_eq_3)
  have linkss: "linkss = [?la, ?lb, ?lc]"
    using l0 l1 l2 unfolding xyz by simp
  have "changes (snd ?loop) =
     [\<lparr>c_name = ''Acme'', c_ticker = ''ACME'', c_ir_url = ''h:'',
       added = [example_link 11], removed = []\<rparr>]"
    unfolding c linkss using da flag
    by (simp add: pa pb pc ra ids)
  with ok show ?thesis by blast
qed

end
